theory Spec2Isabelle
  imports Main "HOL-Library.AList"
begin

section \<open>Python values shared by both scripts\<close>

text \<open>
  A Python \<open>str\<close> is modelled as a \<open>string\<close>: a list of characters with code points
  below 256. Exceptions are values: a function that can raise returns
  \<open>py_exception + 'a\<close>, with \<open>Inl\<close> the exception that escapes it.
\<close>

datatype py_exception =
    AttributeError
  | IndexError
  | ValueError
  | TypeError
  | RequestException
  | OSError

section \<open>pseudonymize.py\<close>

subsection \<open>The pandas operations that process_dataset calls\<close>

text \<open>
  A column that \<open>pd.read_csv\<close> returns has one dtype. A text column has dtype object:
  each cell is a \<open>str\<close>, or NaN where the cell of the file was empty or one of the
  default missing-value markers (\<open>N/A\<close> is one); a missing cell is \<open>None\<close> here. Every
  other column has a numeric dtype: its cells are numbers, or NaN in a float64 column (a
  column without any text cell, one with missing cells only among them, is read with
  float64 or another numeric dtype). The numbers themselves play no part below and are
  integers here. A DataFrame is the list of its labelled columns, in file order; the
  content of a file is the DataFrame that \<open>pd.read_csv\<close> makes of it.
\<close>

datatype column = ObjectCol "string option list" | NumCol "int option list"

type_synonym dataframe = "(string \<times> column) list"

text \<open>\<open>pd.notna\<close> on one cell.\<close>

definition notna :: "'a option \<Rightarrow> bool" where
  "notna x = (case x of None \<Rightarrow> False | Some v \<Rightarrow> True)"

text \<open>\<open>series + "|"\<close>: element-wise on an object column, NaN stays NaN; a numeric column
  and a \<open>str\<close> raise TypeError.\<close>

fun add_str :: "column \<Rightarrow> string \<Rightarrow> py_exception + string option list" where
  "add_str (ObjectCol xs) s = Inr (map (map_option (\<lambda>x. x @ s)) xs)"
| "add_str (NumCol xs) s = Inl TypeError"

definition add_cell :: "string option \<Rightarrow> string option \<Rightarrow> string option" where
  "add_cell x y = (case x of None \<Rightarrow> None
                   | Some a \<Rightarrow> (case y of None \<Rightarrow> None | Some b \<Rightarrow> Some (a @ b)))"

text \<open>
  \<open>series + df[name]\<close>, the left series of dtype object, both with the index of one
  DataFrame. The sum is taken row by row on the rows where both cells are present and
  is NaN on the other rows. A \<open>str\<close> and a number raise TypeError: with a numeric
  column on the right the sum raises as soon as one row has both cells present, and is
  NaN in every row otherwise.
\<close>

fun add_series :: "string option list \<Rightarrow> column \<Rightarrow> py_exception + string option list" where
  "add_series xs (ObjectCol ys) = Inr (map2 add_cell xs ys)"
| "add_series xs (NumCol ys) =
     (if list_ex (\<lambda>(x, y). notna x \<and> notna y) (zip xs ys) then Inl TypeError
      else Inr (map (\<lambda>row. None) (zip xs ys)))"

fun index_of :: "'a \<Rightarrow> 'a list \<Rightarrow> nat option" where
  "index_of k [] = None"
| "index_of k (u # us) =
     (if u = k then Some 0 else map_option Suc (index_of k us))"

text \<open>
  \<open>pd.factorize(values)[0]\<close>: the codes. The values are scanned top to bottom with the
  table \<open>us\<close> of the distinct values met so far; a value of the table gets its position
  there, a new value is appended and gets the next position, NaN gets the sentinel -1.
\<close>

fun factorize_from :: "string list \<Rightarrow> string option list \<Rightarrow> int list" where
  "factorize_from us [] = []"
| "factorize_from us (None # ks) = - 1 # factorize_from us ks"
| "factorize_from us (Some k # ks) =
     (case index_of k us of
        Some i \<Rightarrow> int i # factorize_from us ks
      | None \<Rightarrow> int (length us) # factorize_from (us @ [k]) ks)"

definition factorize :: "string option list \<Rightarrow> int list" where
  "factorize ks = factorize_from [] ks"

text \<open>\<open>df.drop(columns=[name])\<close>.\<close>

definition drop_column :: "string \<Rightarrow> dataframe \<Rightarrow> dataframe" where
  "drop_column name df = filter (\<lambda>c. fst c \<noteq> name) df"

subsection \<open>process_dataset and main\<close>

datatype log_level = INFO | WARNING | ERROR

text \<open>The expression \<open>df["Author"] + "|" + df["Country"]\<close> of line 21.\<close>

definition identity_key ::
  "column \<Rightarrow> column \<Rightarrow> py_exception + string option list" where
  "identity_key author country =
     (case add_str author ''|'' of
        Inl e \<Rightarrow> Inl e
      | Inr a \<Rightarrow> add_series a country)"

text \<open>
  \<open>process_dataset\<close>, from what \<open>pd.read_csv(filepath)\<close> gives (the DataFrame, or the
  exception it raises) to the level of the one message logged and what \<open>to_csv\<close> writes
  to the file; \<open>None\<close>: the file is not written. Every exception raised inside the
  \<open>try\<close> block is caught by \<open>except Exception\<close> and logged as an error.
\<close>

definition process_dataset ::
  "py_exception + dataframe \<Rightarrow> log_level \<times> dataframe option" where
  "process_dataset rd =
     (case rd of
        Inl e \<Rightarrow> (ERROR, None)
      | Inr df \<Rightarrow>
          (case map_of df ''Author'' of
             None \<Rightarrow> (WARNING, None)
           | Some author \<Rightarrow>
               (case map_of df ''Country'' of
                  None \<Rightarrow> (WARNING, None)
                | Some country \<Rightarrow>
                    (case identity_key author country of
                       Inl e \<Rightarrow> (ERROR, None)
                     | Inr ks \<Rightarrow>
                         (INFO, Some (drop_column ''Author''
                            (AList.update ''author_id''
                               (NumCol (map Some (factorize ks))) df)))))))"

definition endswith :: "string \<Rightarrow> string \<Rightarrow> bool" where
  "endswith s suffix = (length suffix \<le> length s
     \<and> drop (length s - length suffix) s = suffix)"

text \<open>
  \<open>main\<close>: the directory is the list of its file names with what reading each file
  gives; the result lists, for every file processed, what was logged and written.
\<close>

fun pseudonymize_main ::
  "(string \<times> (py_exception + dataframe)) list
     \<Rightarrow> (string \<times> log_level \<times> dataframe option) list" where
  "pseudonymize_main [] = []"
| "pseudonymize_main ((filename, rd) # files) =
     (if endswith filename ''_reviews.csv''
      then (filename, process_dataset rd) # pseudonymize_main files
      else pseudonymize_main files)"

section \<open>scrape_reviews.py\<close>

subsection \<open>Python string operations\<close>

text \<open>\<open>str.isspace\<close> on one character, for the code points below 256.\<close>

definition is_space :: "char \<Rightarrow> bool" where
  "is_space c = (c \<in> set [CHR 0x09, CHR 0x0A, CHR 0x0B, CHR 0x0C, CHR 0x0D,
                            CHR 0x1C, CHR 0x1D, CHR 0x1E, CHR 0x1F, CHR 0x20,
                            CHR 0x85, CHR 0xA0])"

text \<open>\<open>s.strip()\<close>.\<close>

definition strip :: "string \<Rightarrow> string" where
  "strip s = rev (dropWhile is_space (rev (dropWhile is_space s)))"

definition digit_char :: "nat \<Rightarrow> char" where
  "digit_char d = ''0123456789'' ! d"

text \<open>\<open>str(n)\<close> for the result of \<open>len\<close>, a natural number.\<close>

fun py_str :: "nat \<Rightarrow> string" where
  "py_str n = (if n < 10 then [digit_char n]
               else py_str (n div 10) @ [digit_char (n mod 10)])"

declare py_str.simps [simp del]

definition is_digit :: "char \<Rightarrow> bool" where
  "is_digit c = (c \<in> set ''0123456789'')"

definition digit_value :: "char \<Rightarrow> nat" where
  "digit_value c = of_char c - 48"

text \<open>
  The digits of \<open>int(s)\<close> after the first one, \<open>acc\<close> the value read so far: decimal
  digits, and single underscores each between two digits.
\<close>

fun digits_from :: "nat \<Rightarrow> string \<Rightarrow> nat option" where
  "digits_from acc [] = Some acc"
| "digits_from acc (c # cs) =
     (if is_digit c then digits_from (acc * 10 + digit_value c) cs
      else if c = CHR ''_'' then
        (case cs of
           [] \<Rightarrow> None
         | d # ds \<Rightarrow> if is_digit d then digits_from (acc * 10 + digit_value d) ds
                     else None)
      else None)"

definition parse_digits :: "string \<Rightarrow> nat option" where
  "parse_digits s =
     (case s of
        [] \<Rightarrow> None
      | c # cs \<Rightarrow> if is_digit c then digits_from (digit_value c) cs else None)"

text \<open>\<open>int(s)\<close>, base 10: surrounding whitespace, an optional sign, the digits; anything
  else raises ValueError.\<close>

definition py_int :: "string \<Rightarrow> py_exception + int" where
  "py_int s =
     (case strip s of
        [] \<Rightarrow> Inl ValueError
      | c # cs \<Rightarrow>
          (if c = CHR ''-'' then
             (case parse_digits cs of None \<Rightarrow> Inl ValueError | Some n \<Rightarrow> Inr (- int n))
           else if c = CHR ''+'' then
             (case parse_digits cs of None \<Rightarrow> Inl ValueError | Some n \<Rightarrow> Inr (int n))
           else
             (case parse_digits (c # cs) of None \<Rightarrow> Inl ValueError | Some n \<Rightarrow> Inr (int n))))"

text \<open>
  \<open>.+?(?=\))\<close> tried at the head of \<open>s\<close>: the lazy \<open>.+?\<close> takes one character that
  is not a newline, then one more at a time, until the next character is \<open>)\<close>.
\<close>

fun lazy_until_close :: "string \<Rightarrow> string option" where
  "lazy_until_close [] = None"
| "lazy_until_close (c # cs) =
     (if c = CHR 0x0A then None
      else (case cs of
              [] \<Rightarrow> None
            | d # ds \<Rightarrow> if d = CHR '')'' then Some [c]
                        else map_option ((#) c) (lazy_until_close cs)))"

text \<open>
  \<open>re.search(r"(?<=\().+?(?=\))", s)\<close>, giving \<open>group(0)\<close> of the match: the start
  positions are tried from left to right, and a start needs \<open>(\<close> just before it.
\<close>

fun re_search_parens :: "string \<Rightarrow> string option" where
  "re_search_parens [] = None"
| "re_search_parens (c # cs) =
     (if c = CHR ''(''
      then (case lazy_until_close cs of
              Some m \<Rightarrow> Some m
            | None \<Rightarrow> re_search_parens cs)
      else re_search_parens cs)"

subsection \<open>The parse tree of BeautifulSoup\<close>

text \<open>
  A node of the tree is a string of the document, a comment (a string that \<open>.text\<close>
  leaves out), or a tag with its name, the list of its classes (the multi-valued
  \<open>class\<close> attribute; empty when the tag has none), its other attributes and its
  children. The \<open>BeautifulSoup\<close> object itself is a tag whose children are the top
  nodes of the document.
\<close>

datatype node =
    NavigableString string
  | Comment string
  | Tag string "string list" "(string \<times> string) list" "node list"

text \<open>\<open>tag.descendants\<close>: every node below the tag, in document order.\<close>

fun descendants :: "node \<Rightarrow> node list" where
  "descendants (Tag nm cl at ks) = concat (map (\<lambda>k. k # descendants k) ks)"
| "descendants (NavigableString s) = []"
| "descendants (Comment s) = []"

text \<open>\<open>tag.text\<close>: the strings below the tag, concatenated.\<close>

fun text_of :: "node \<Rightarrow> string" where
  "text_of (NavigableString s) = s"
| "text_of (Comment s) = []"
| "text_of (Tag nm cl at ks) = concat (map text_of ks)"

fun strings_of :: "node \<Rightarrow> string list" where
  "strings_of (NavigableString s) = [s]"
| "strings_of (Comment s) = []"
| "strings_of (Tag nm cl at ks) = concat (map strings_of ks)"

text \<open>\<open>tag.get_text(strip=True)\<close>: every string stripped, the empty ones dropped.\<close>

definition get_text_strip :: "node \<Rightarrow> string" where
  "get_text_strip n = concat (filter (\<lambda>s. s \<noteq> []) (map strip (strings_of n)))"

text \<open>\<open>" ".join(xs)\<close>.\<close>

fun join_space :: "string list \<Rightarrow> string" where
  "join_space [] = []"
| "join_space [x] = x"
| "join_space (x # y # zs) = x @ '' '' @ join_space (y # zs)"

text \<open>
  The keyword arguments of a search: none, \<open>class_=c\<close>, or \<open>key=value\<close> for a
  single-valued attribute. \<open>class_=c\<close> accepts a tag when \<open>c\<close> is one of its classes
  or is the whole class value, joined by spaces.
\<close>

datatype criterion = AnyTag | Class string | Attr string string

fun matches :: "string \<Rightarrow> criterion \<Rightarrow> node \<Rightarrow> bool" where
  "matches nm crit (Tag n cl at ks) =
     (n = nm \<and>
      (case crit of
         AnyTag \<Rightarrow> True
       | Class c \<Rightarrow> c \<in> set cl \<or> c = join_space cl
       | Attr k v \<Rightarrow> map_of at k = Some v))"
| "matches nm crit (NavigableString s) = False"
| "matches nm crit (Comment s) = False"

definition find_all :: "node \<Rightarrow> string \<Rightarrow> criterion \<Rightarrow> node list" where
  "find_all n nm crit = filter (matches nm crit) (descendants n)"

text \<open>\<open>tag.find(...)\<close>: the first result of \<open>find_all\<close>, or \<open>None\<close>.\<close>

definition find_tag :: "node \<Rightarrow> string \<Rightarrow> criterion \<Rightarrow> node option" where
  "find_tag n nm crit = (case find_all n nm crit of [] \<Rightarrow> None | x # xs \<Rightarrow> Some x)"

fun is_tag :: "node \<Rightarrow> bool" where
  "is_tag (Tag nm cl at ks) = True"
| "is_tag (NavigableString s) = False"
| "is_tag (Comment s) = False"

text \<open>\<open>tag.findChildren()\<close>, which is \<open>find_all()\<close> without arguments: every tag below.\<close>

definition findChildren :: "node \<Rightarrow> node list" where
  "findChildren n = filter is_tag (descendants n)"

text \<open>\<open>tag.get(key, default)\<close> for a single-valued attribute; the searches above return
  tags only, so the other two equations are never reached.\<close>

fun tag_get :: "node \<Rightarrow> string \<Rightarrow> string \<Rightarrow> string" where
  "tag_get (Tag nm cl at ks) key dflt = (case map_of at key of None \<Rightarrow> dflt | Some v \<Rightarrow> v)"
| "tag_get (NavigableString s) key dflt = dflt"
| "tag_get (Comment s) key dflt = dflt"

subsection \<open>scrape_reviews: one review block\<close>

text \<open>A review is a \<open>dict\<close>: the keys in insertion order, each once; \<open>review[k] = v\<close> is
  \<open>AList.update k v\<close>, which replaces the value of a key already there in place.\<close>

type_synonym review = "(string \<times> string) list"

text \<open>\<open>x.text.strip() if x else "N/A"\<close>; a tag is always true.\<close>

definition stripped_text_or_NA :: "node option \<Rightarrow> string" where
  "stripped_text_or_NA x = (case x of Some t \<Rightarrow> strip (text_of t) | None \<Rightarrow> ''N/A'')"

text \<open>Lines 57 to 60.\<close>

definition rating_of :: "node \<Rightarrow> string" where
  "rating_of review_block =
     (let rating =
        (case find_tag review_block ''span'' (Attr ''itemprop'' ''ratingValue'') of
           None \<Rightarrow> find_tag review_block ''div'' (Class ''rating-10'')
         | Some x \<Rightarrow> Some x)
      in stripped_text_or_NA rating)"

text \<open>Lines 71 to 77.\<close>

definition country_of :: "node \<Rightarrow> string" where
  "country_of review_block =
     (case find_tag review_block ''h3'' (Class ''userStatusWrapper'') of
        Some user_info \<Rightarrow>
          (case re_search_parens (strip (text_of user_info)) of
             Some m \<Rightarrow> m
           | None \<Rightarrow> ''N/A'')
      | None \<Rightarrow> ''N/A'')"

text \<open>
  Lines 51 to 81: the six assignments to the fresh \<open>dict\<close>. \<open>find("time")\<close> is
  \<open>None\<close> on a block without a \<open>time\<close> element, and \<open>None.get\<close> raises
  AttributeError outside every \<open>try\<close>.
\<close>

definition core_fields :: "node \<Rightarrow> py_exception + review" where
  "core_fields review_block =
     (case find_tag review_block ''time'' AnyTag of
        None \<Rightarrow> Inl AttributeError
      | Some t \<Rightarrow>
          Inr [(''Date'', tag_get t ''datetime'' ''N/A''),
               (''Rating'', rating_of review_block),
               (''Title'',
                  stripped_text_or_NA (find_tag review_block ''h2'' (Class ''text_header''))),
               (''Author'',
                  stripped_text_or_NA (find_tag review_block ''span'' (Attr ''itemprop'' ''name''))),
               (''Country'', country_of review_block),
               (''Review'',
                  stripped_text_or_NA
                    (find_tag review_block ''div'' (Attr ''itemprop'' ''reviewBody'')))])"

text \<open>
  Lines 87 to 93, for one row \<open>stat\<close>: the label and the value that line 95 stores.
  \<open>cells[0]\<close> and \<open>cells[1]\<close> raise IndexError on a row with fewer than two tags
  below it.
\<close>

definition stat_entry :: "node \<Rightarrow> py_exception + string \<times> string" where
  "stat_entry stat =
     (case findChildren stat of
        c0 # c1 # cells \<Rightarrow>
          (let label_text = strip (text_of c0);
               value_text = strip (text_of c1)
           in Inr (label_text,
                   if value_text = ''12345''
                   then py_str (length (find_all c1 ''span'' (Class ''star fill'')))
                   else value_text))
      | _ \<Rightarrow> Inl IndexError)"

text \<open>The loop of lines 86 to 95 over the rows.\<close>

fun parse_stats :: "node list \<Rightarrow> review \<Rightarrow> py_exception + review" where
  "parse_stats [] review = Inr review"
| "parse_stats (stat # stats) review =
     (case stat_entry stat of
        Inl e \<Rightarrow> Inl e
      | Inr (label_text, value_text) \<Rightarrow>
          parse_stats stats (AList.update label_text value_text review))"

text \<open>
  The body of the loop of line 49 for one block. Without a ratings table
  \<open>find(...)\<close> is \<open>None\<close> and \<open>None.find_all\<close> raises the AttributeError that
  line 97 catches: the review keeps its core fields. An IndexError of a row is not an
  AttributeError and escapes. The calls of \<open>print\<close> are not modelled.
\<close>

definition review_of_block :: "node \<Rightarrow> py_exception + review" where
  "review_of_block review_block =
     (case core_fields review_block of
        Inl e \<Rightarrow> Inl e
      | Inr review \<Rightarrow>
          (case find_tag review_block ''table'' (Class ''review-ratings'') of
             None \<Rightarrow> Inr review
           | Some tbl \<Rightarrow> parse_stats (find_all tbl ''tr'' AnyTag) review))"

subsection \<open>scrape_reviews, get_all_reviews and main\<close>

fun reviews_of_blocks :: "node list \<Rightarrow> py_exception + review list" where
  "reviews_of_blocks [] = Inr []"
| "reviews_of_blocks (b # bs) =
     (case review_of_block b of
        Inl e \<Rightarrow> Inl e
      | Inr review \<Rightarrow>
          (case reviews_of_blocks bs of
             Inl e \<Rightarrow> Inl e
           | Inr reviews \<Rightarrow> Inr (review # reviews)))"

text \<open>
  \<open>scrape_reviews\<close>, from what the request for the page gives: the parsed document, or
  the \<open>RequestException\<close> of \<open>requests.get\<close> or \<open>raise_for_status\<close>.
\<close>

definition scrape_reviews :: "py_exception + node \<Rightarrow> py_exception + review list" where
  "scrape_reviews response =
     (case response of
        Inl e \<Rightarrow> Inr []
      | Inr soup \<Rightarrow> reviews_of_blocks (find_all soup ''article'' (Class ''list-item'')))"

text \<open>The site: what the request for page \<open>page_num\<close> of a section gives.\<close>

type_synonym site = "string \<Rightarrow> int \<Rightarrow> py_exception + node"

fun scrape_pages :: "site \<Rightarrow> string \<Rightarrow> int list \<Rightarrow> py_exception + review list" where
  "scrape_pages web section [] = Inr []"
| "scrape_pages web section (page_num # page_nums) =
     (case scrape_reviews (web section page_num) of
        Inl e \<Rightarrow> Inl e
      | Inr reviews \<Rightarrow>
          (case scrape_pages web section page_nums of
             Inl e \<Rightarrow> Inl e
           | Inr all_reviews \<Rightarrow> Inr (reviews @ all_reviews)))"

text \<open>\<open>range(1, num_pages + 1)\<close> is \<open>[1..num_pages]\<close>, empty when \<open>num_pages < 1\<close>.\<close>

definition get_all_reviews :: "site \<Rightarrow> string \<Rightarrow> int \<Rightarrow> py_exception + review list" where
  "get_all_reviews web section num_pages = scrape_pages web section [1..num_pages]"

text \<open>
  Lines 140 to 143: \<open>page_nav\<close> is \<open>None\<close> without the pagination element, and
  \<open>None.find_all\<close> raises AttributeError; \<open>nav_items[-2]\<close> raises IndexError on
  fewer than two items; \<open>int\<close> raises ValueError on a text that is no number. None of
  the three is inside a \<open>try\<close>.
\<close>

definition num_pages_of :: "node \<Rightarrow> py_exception + int" where
  "num_pages_of soup =
     (case find_tag soup ''article'' (Class ''comp_reviews-pagination'') of
        None \<Rightarrow> Inl AttributeError
      | Some page_nav \<Rightarrow>
          (case rev (find_all page_nav ''li'' AnyTag) of
             last_item # item # items \<Rightarrow> py_int (get_text_strip item)
           | _ \<Rightarrow> Inl IndexError))"

text \<open>
  The loop of \<open>main\<close> over the sections: the data sets written, in order, each under
  its section, and the exception that ended the run, if one did.
\<close>

fun main_sections ::
  "site \<Rightarrow> string list \<Rightarrow> (string \<times> review list) list \<times> py_exception option" where
  "main_sections web [] = ([], None)"
| "main_sections web (section # sections) =
     (case web section 1 of
        Inl e \<Rightarrow> main_sections web sections
      | Inr soup \<Rightarrow>
          (case num_pages_of soup of
             Inl e \<Rightarrow> ([], Some e)
           | Inr num_pages \<Rightarrow>
               (case get_all_reviews web section num_pages of
                  Inl e \<Rightarrow> ([], Some e)
                | Inr reviews \<Rightarrow>
                    (case main_sections web sections of
                       (written, raised) \<Rightarrow> ((section, reviews) # written, raised)))))"

definition scrape_main :: "site \<Rightarrow> (string \<times> review list) list \<times> py_exception option" where
  "scrape_main web = main_sections web [''airline'', ''seat'', ''lounge'']"

section \<open>Notions used to state the properties\<close>

text \<open>The key string of a row with both cells present; no key for a row with a missing
  cell.\<close>

definition key_of :: "string option \<Rightarrow> string option \<Rightarrow> string option" where
  "key_of author country =
     (case author of
        None \<Rightarrow> None
      | Some a \<Rightarrow> (case country of None \<Rightarrow> None | Some c \<Rightarrow> Some (a @ ''|'' @ c)))"

definition key_strings :: "string option list \<Rightarrow> string option list \<Rightarrow> string option list" where
  "key_strings authors countries = map2 key_of authors countries"

text \<open>The distinct keys of the rows above the first row that carries the key \<open>k\<close>.\<close>

definition seen_before :: "string \<Rightarrow> string option list \<Rightarrow> string set" where
  "seen_before k ks = {k'. Some k' \<in> set (takeWhile (\<lambda>x. x \<noteq> Some k) ks)}"

text \<open>The names of the core fields.\<close>

definition core_names :: "string list" where
  "core_names = [''Date'', ''Rating'', ''Title'', ''Author'', ''Country'', ''Review'']"

text \<open>The rows of the ratings table of a block; none when the block has no such table.\<close>

definition stat_rows :: "node \<Rightarrow> node list" where
  "stat_rows review_block =
     (case find_tag review_block ''table'' (Class ''review-ratings'') of
        None \<Rightarrow> []
      | Some tbl \<Rightarrow> find_all tbl ''tr'' AnyTag)"

text \<open>No row of \<open>stats\<close> carries the label \<open>l\<close>.\<close>

definition unlabelled :: "string \<Rightarrow> node list \<Rightarrow> bool" where
  "unlabelled l stats = list_all (\<lambda>stat. case stat_entry stat of
                                            Inl e \<Rightarrow> True
                                          | Inr (label_text, value_text) \<Rightarrow> label_text \<noteq> l) stats"

text \<open>
  The text \<open>rest\<close> after a \<open>(\<close> begins with the group \<open>m\<close>: \<open>m\<close> is not empty, has
  no newline and no \<open>)\<close> after its first character, and \<open>)\<close> follows it.
\<close>

definition group_at :: "string \<Rightarrow> string \<Rightarrow> bool" where
  "group_at rest m =
     (m \<noteq> [] \<and> CHR 0x0A \<notin> set m \<and> CHR '')'' \<notin> set (tl m)
      \<and> take (Suc (length m)) rest = m @ '')'')"

text \<open>
  The Country rule in the words of the specification, the text between the last unmatched
  \<open>(\<close> of the status line and the next \<open>)\<close>, \<open>N/A\<close> without such a pair, in the
  three readings of "the last unmatched \<open>(\<close>". First reading: the \<open>(\<close> still open
  when the first \<open>)\<close> of the line arrives, which is the \<open>(\<close> nearest before it.
\<close>

definition spec_country_nearest_open :: "string \<Rightarrow> string" where
  "spec_country_nearest_open status =
     (if CHR '')'' \<notin> set status then ''N/A''
      else (let opening = takeWhile (\<lambda>c. c \<noteq> CHR '')'') status
            in if CHR ''('' \<in> set opening
               then rev (takeWhile (\<lambda>c. c \<noteq> CHR ''('') (rev opening))
               else ''N/A''))"

text \<open>Second reading: the last \<open>(\<close> of the line.\<close>

definition spec_country_last_open :: "string \<Rightarrow> string" where
  "spec_country_last_open status =
     (if CHR ''('' \<notin> set status then ''N/A''
      else (let after = rev (takeWhile (\<lambda>c. c \<noteq> CHR ''('') (rev status))
            in if CHR '')'' \<in> set after
               then takeWhile (\<lambda>c. c \<noteq> CHR '')'') after
               else ''N/A''))"

text \<open>
  Third reading: the last \<open>(\<close> that the matching of the parentheses of the whole line
  leaves without a partner. \<open>open_parens\<close> scans the line with the stack of the texts
  after the \<open>(\<close> not closed so far, the latest on top.
\<close>

fun open_parens :: "string list \<Rightarrow> string \<Rightarrow> string list" where
  "open_parens stack [] = stack"
| "open_parens stack (c # cs) =
     (if c = CHR ''('' then open_parens (cs # stack) cs
      else if c = CHR '')'' then open_parens (tl stack) cs
      else open_parens stack cs)"

definition spec_country_unbalanced_open :: "string \<Rightarrow> string" where
  "spec_country_unbalanced_open status =
     (case open_parens [] status of
        [] \<Rightarrow> ''N/A''
      | after # stack \<Rightarrow>
          if CHR '')'' \<in> set after
          then takeWhile (\<lambda>c. c \<noteq> CHR '')'') after
          else ''N/A'')"

section \<open>Example inputs\<close>

subsection \<open>Data sets\<close>

definition reviews_table :: dataframe where
  "reviews_table =
     [(''Date'', ObjectCol [Some ''2023-05-01'', Some ''2023-05-02'', Some ''2023-05-03'',
                            Some ''2023-05-04'']),
      (''Author'', ObjectCol [Some ''Ann'', Some ''Bob'', Some ''Ann'', None]),
      (''Country'', ObjectCol [Some ''UK'', Some ''UK'', Some ''UK'', Some ''France''])]"

definition colliding_table :: dataframe where
  "colliding_table =
     [(''Author'', ObjectCol [Some ''a|b'', Some ''a'', None, None]),
      (''Country'', ObjectCol [Some ''c'', Some ''b|c'', Some ''UK'', Some ''France''])]"

definition no_country_cells_table :: dataframe where
  "no_country_cells_table =
     [(''Author'', ObjectCol [Some ''Ann'', Some ''Bob'']),
      (''Country'', NumCol [None, None])]"

definition no_country_table :: dataframe where
  "no_country_table =
     [(''Date'', ObjectCol [Some ''2023-05-01'']),
      (''Author'', ObjectCol [Some ''Ann''])]"

subsection \<open>Review blocks and pages\<close>

definition star :: "bool \<Rightarrow> string \<Rightarrow> node" where
  "star filled t =
     Tag ''span'' (if filled then [''star'', ''fill''] else [''star'']) [] [NavigableString t]"

definition stat_row :: "string \<Rightarrow> node list \<Rightarrow> node" where
  "stat_row label_text value_nodes =
     Tag ''tr'' [] []
       [Tag ''td'' [''review-rating-header''] [] [NavigableString label_text],
        Tag ''td'' [''review-value''] [] value_nodes]"

definition time_tag :: node where
  "time_tag = Tag ''time'' [] [(''datetime'', ''2023-05-01'')] [NavigableString ''1st May 2023'']"

definition status_line :: "string \<Rightarrow> node" where
  "status_line t = Tag ''h3'' [''text_sub_header'', ''userStatusWrapper''] [] [NavigableString t]"

definition rated_block :: node where
  "rated_block =
     Tag ''article'' [''list-item''] []
       [time_tag,
        Tag ''div'' [''rating-10''] [] [NavigableString '' 9/10 ''],
        status_line ''John D (United Kingdom)'',
        Tag ''table'' [''review-ratings''] []
          [stat_row ''Seat Comfort''
             [star True ''1'', star True ''2'', star True ''3'', star False ''4'',
              star False ''5''],
           stat_row ''Recommended'' [NavigableString '' yes '']]]"

definition relabelled_block :: node where
  "relabelled_block =
     Tag ''article'' [''list-item''] []
       [time_tag,
        Tag ''span'' [] [(''itemprop'', ''ratingValue'')] [NavigableString ''7''],
        Tag ''table'' [''review-ratings''] []
          [stat_row ''Rating'' [NavigableString ''zzz'']]]"

definition nested_groups_block :: node where
  "nested_groups_block =
     Tag ''article'' [''list-item''] []
       [time_tag, status_line ''John (London (UK) based)'']"

definition broken_group_block :: node where
  "broken_group_block =
     Tag ''article'' [''list-item''] []
       [time_tag, status_line (''(a'' @ [CHR 0x0A] @ ''b) (UK)'')]"

definition six_star_cell :: node where
  "six_star_cell =
     Tag ''td'' [''review-rating-stars'', ''stars''] []
       [star True ''1'', star True ''2'', star True ''3'', star True ''4'', star True ''5'',
        star True []]"

definition no_time_block :: node where
  "no_time_block =
     Tag ''article'' [''list-item''] []
       [Tag ''h2'' [''text_header''] [] [NavigableString ''Good flight''],
        Tag ''span'' [] [(''itemprop'', ''ratingValue'')] [NavigableString ''7'']]"

definition short_row_block :: node where
  "short_row_block =
     Tag ''article'' [''list-item''] []
       [time_tag,
        Tag ''h2'' [''text_header''] [] [NavigableString ''Good flight''],
        Tag ''table'' [''review-ratings''] []
          [Tag ''tr'' [] [] [Tag ''td'' [] [] [NavigableString ''Aircraft'']]]]"

definition page_of :: "node list \<Rightarrow> node" where
  "page_of nodes = Tag ''[document]'' [] [] nodes"






definition bare_site :: site where
  "bare_site section page_num = Inr (page_of [rated_block])"

section \<open>Lemmas on the pandas operations\<close>

lemma index_of_notin: "k \<notin> set us \<Longrightarrow> index_of k us = None"
  by (induction us) auto

lemma index_of_in: "k \<in> set us \<Longrightarrow> \<exists>i. index_of k us = Some i"
  by (induction us) auto

lemma index_of_Some: "index_of k us = Some i \<Longrightarrow> i < length us \<and> us ! i = k"
  by (induction us arbitrary: i) (auto split: if_splits)

lemma index_of_append: "k \<in> set us \<Longrightarrow> index_of k (us @ vs) = index_of k us"
  by (induction us) auto

lemma index_of_snoc: "k \<notin> set us \<Longrightarrow> index_of k (us @ [k]) = Some (length us)"
  by (induction us) auto

lemma length_factorize_from: "length (factorize_from us ks) = length ks"
  by (induction us ks rule: factorize_from.induct) (auto split: option.splits)

lemma factorize_from_known:
  "k \<in> set us \<Longrightarrow> i < length ks \<Longrightarrow> ks ! i = Some k \<Longrightarrow>
     index_of k us = Some (nat (factorize_from us ks ! i)) \<and> 0 \<le> factorize_from us ks ! i"
proof (induction us ks arbitrary: i rule: factorize_from.induct)
  case (1 us) then show ?case by simp
next
  case (2 us ks) then show ?case by (cases i) auto
next
  case (3 us k0 ks)
  show ?case
  proof (cases i)
    case 0
    with 3 show ?thesis by (auto simp: index_of_notin dest: index_of_in split: option.splits)
  next
    case (Suc j)
    with 3 show ?thesis by (auto simp: index_of_append split: option.splits)
  qed
qed

lemma seen_before_Cons_other:
  "x \<noteq> Some k \<Longrightarrow> seen_before k (x # ks) = (case x of None \<Rightarrow> {} | Some a \<Rightarrow> {a}) \<union> seen_before k ks"
  by (auto simp: seen_before_def split: option.splits)

lemma seen_before_Cons_same: "seen_before k (Some k # ks) = {}"
  by (simp add: seen_before_def)

lemma factorize_from_new:
  "distinct us \<Longrightarrow> k \<notin> set us \<Longrightarrow> i < length ks \<Longrightarrow> ks ! i = Some k \<Longrightarrow>
     factorize_from us ks ! i = int (card (set us \<union> seen_before k ks))"
proof (induction us ks arbitrary: i rule: factorize_from.induct)
  case (1 us) then show ?case by simp
next
  case (2 us ks) then show ?case by (cases i) (auto simp: seen_before_Cons_other)
next
  case (3 us k0 ks)
  show ?case
  proof (cases i)
    case 0
    with 3 show ?thesis by (auto simp: index_of_notin seen_before_Cons_same distinct_card)
  next
    case (Suc j)
    show ?thesis
    proof (cases "k0 = k")
      case True
      have "factorize_from (us @ [k]) ks ! j = int (length us)"
        using factorize_from_known[of k "us @ [k]" j ks] 3(4,5,6) Suc
        by (auto simp: index_of_snoc)
      with True 3 Suc show ?thesis
        by (auto simp: index_of_notin seen_before_Cons_same distinct_card)
    next
      case False
      show ?thesis
      proof (cases "index_of k0 us")
        case None
        then have "k0 \<notin> set us" using index_of_in by fastforce
        with None False 3 Suc show ?thesis
          by (auto simp: seen_before_Cons_other Un_commute insert_commute)
      next
        case (Some n)
        then have "k0 \<in> set us" using index_of_Some by fastforce
        then have "set us \<union> ({k0} \<union> seen_before k ks) = set us \<union> seen_before k ks" by auto
        with Some False 3 Suc show ?thesis
          by (auto simp: seen_before_Cons_other)
      qed
    qed
  qed
qed

lemma factorize_first_seen:
  "i < length ks \<Longrightarrow> ks ! i = Some k \<Longrightarrow> factorize ks ! i = int (card (seen_before k ks))"
  using factorize_from_new[of "[]" k i ks] by (simp add: factorize_def)

lemma finite_seen_before: "finite (seen_before k ks)"
proof -
  have "seen_before k ks \<subseteq> the ` set ks"
    by (auto simp: seen_before_def image_iff dest!: set_takeWhileD) force
  then show ?thesis by (rule finite_subset) simp
qed

lemma not_seen_before_self: "k \<notin> seen_before k ks"
  by (auto simp: seen_before_def dest: set_takeWhileD)

lemma seen_before_order:
  "a \<noteq> b \<Longrightarrow> Some a \<in> set ks \<Longrightarrow> Some b \<in> set ks \<Longrightarrow>
     (a \<in> seen_before b ks \<and> seen_before a ks \<subseteq> seen_before b ks)
   \<or> (b \<in> seen_before a ks \<and> seen_before b ks \<subseteq> seen_before a ks)"
proof (induction ks)
  case Nil then show ?case by simp
next
  case (Cons x ks)
  show ?case
  proof (cases "x = Some a")
    case True
    with Cons(2) have "a \<in> seen_before b (x # ks)" by (auto simp: seen_before_def)
    with True show ?thesis by (auto simp: seen_before_Cons_same)
  next
    case na: False
    show ?thesis
    proof (cases "x = Some b")
      case True
      with Cons(2) have "b \<in> seen_before a (x # ks)" by (auto simp: seen_before_def)
      with True show ?thesis by (auto simp: seen_before_Cons_same)
    next
      case False
      with na Cons have "(a \<in> seen_before b ks \<and> seen_before a ks \<subseteq> seen_before b ks)
   \<or> (b \<in> seen_before a ks \<and> seen_before b ks \<subseteq> seen_before a ks)"
        by auto
      with na False show ?thesis
        by (auto simp: seen_before_Cons_other)
    qed
  qed
qed

lemma card_seen_before_inj:
  assumes "a \<noteq> b" "Some a \<in> set ks" "Some b \<in> set ks"
  shows "card (seen_before a ks) \<noteq> card (seen_before b ks)"
proof -
  from seen_before_order[OF assms]
  have "seen_before a ks \<subset> seen_before b ks \<or> seen_before b ks \<subset> seen_before a ks"
    using not_seen_before_self[of a ks] not_seen_before_self[of b ks] by blast
  then show ?thesis
    using psubset_card_mono[OF finite_seen_before] by (metis less_irrefl)
qed

lemma length_takeWhile_le_nth:
  "i < length ks \<Longrightarrow> \<not> P (ks ! i) \<Longrightarrow> length (takeWhile P ks) \<le> i"
proof (induction ks arbitrary: i)
  case Nil then show ?case by simp
next
  case (Cons x ks) then show ?case by (cases i) auto
qed

lemma card_seen_before_bound:
  assumes "i < length ks" "ks ! i = Some k"
  shows "card (seen_before k ks) \<le> i"
proof -
  let ?pre = "takeWhile (\<lambda>x. x \<noteq> Some k) ks"
  have "seen_before k ks \<subseteq> the ` set ?pre"
    by (force simp: seen_before_def image_iff)
  then have "card (seen_before k ks) \<le> card (the ` set ?pre)"
    by (intro card_mono) auto
  also have "\<dots> \<le> card (set ?pre)" by (rule card_image_le) simp
  also have "\<dots> \<le> length ?pre" by (rule card_length)
  also have "\<dots> \<le> i" using assms by (intro length_takeWhile_le_nth) auto
  finally show ?thesis .
qed

lemma factorize_from_missing:
  "i < length ks \<Longrightarrow> ks ! i = None \<Longrightarrow> factorize_from us ks ! i = - 1"
proof (induction us ks arbitrary: i rule: factorize_from.induct)
  case (1 us) then show ?case by simp
next
  case (2 us ks) then show ?case by (cases i) auto
next
  case (3 us k0 ks) then show ?case by (cases i) (auto split: option.splits)
qed

lemma map_of_drop_column:
  "map_of (drop_column n df) k = (if k = n then None else map_of df k)"
  by (induction df) (auto simp: drop_column_def)

lemma identity_key_object:
  "identity_key (ObjectCol as) (ObjectCol cs) = Inr (key_strings as cs)"
proof -
  have "map2 add_cell (map (map_option (\<lambda>x. x @ ''|'')) as) cs = map2 key_of as cs"
  proof (induction as arbitrary: cs)
    case Nil then show ?case by simp
  next
    case (Cons a as)
    then show ?case
      by (cases cs) (auto simp: add_cell_def key_of_def split: option.splits)
  qed
  then show ?thesis by (simp add: identity_key_def key_strings_def)
qed

lemma key_injective:
  "a @ ''|'' @ c = a' @ ''|'' @ c' \<Longrightarrow> CHR ''|'' \<notin> set a \<Longrightarrow> CHR ''|'' \<notin> set a'
     \<Longrightarrow> a = a' \<and> c = c'"
proof (induction a arbitrary: a')
  case Nil then show ?case by (cases a') auto
next
  case (Cons x xs) then show ?case by (cases a') auto
qed

lemma pseudonymize_main_append:
  "pseudonymize_main (xs @ ys) = pseudonymize_main xs @ pseudonymize_main ys"
  by (induction xs rule: pseudonymize_main.induct) auto

lemma endswith_append: "endswith (stem @ suffix) suffix"
  by (simp add: endswith_def)

text \<open>
  How \<open>process_dataset\<close> numbers the rows when the Author and the Country column are
  both text columns: by the key string \<open>Author|Country\<close>, in the order of first
  appearance, with -1 for a row with a missing cell.
\<close>

lemma identifiers_by_first_appearance:
  assumes "map_of df ''Author'' = Some (ObjectCol authors)"
      and "map_of df ''Country'' = Some (ObjectCol countries)"
      and "length authors = length countries"
  shows "\<exists>out ids.
      process_dataset (Inr df) = (INFO, Some out)
    \<and> map_of out ''author_id'' = Some (NumCol (map Some ids))
    \<and> map_of out ''Author'' = None
    \<and> length ids = length authors
    \<and> (\<forall>i < length authors. authors ! i = None \<or> countries ! i = None \<longrightarrow> ids ! i = - 1)
    \<and> (\<forall>i < length authors. \<forall>a c. authors ! i = Some a \<and> countries ! i = Some c \<longrightarrow>
          ids ! i = int (card (seen_before (a @ ''|'' @ c) (key_strings authors countries)))
        \<and> 0 \<le> ids ! i \<and> ids ! i \<le> int i)
    \<and> (\<forall>i < length authors. \<forall>j < length authors. \<forall>a c a' c'.
          authors ! i = Some a \<and> countries ! i = Some c \<and>
          authors ! j = Some a' \<and> countries ! j = Some c' \<longrightarrow>
            (ids ! i = ids ! j \<longleftrightarrow> a @ ''|'' @ c = a' @ ''|'' @ c')
          \<and> (a = a' \<and> c = c' \<longrightarrow> ids ! i = ids ! j)
          \<and> (CHR ''|'' \<notin> set a \<and> CHR ''|'' \<notin> set a' \<and> ids ! i = ids ! j \<longrightarrow> a = a' \<and> c = c'))"
proof -
  let ?ks = "key_strings authors countries"
  let ?ids = "factorize ?ks"
  let ?out = "drop_column ''Author'' (AList.update ''author_id'' (NumCol (map Some ?ids)) df)"
  have len: "length ?ks = length authors"
    using assms(3) by (simp add: key_strings_def)
  have nth: "?ks ! i = key_of (authors ! i) (countries ! i)" if "i < length authors" for i
    using that assms(3) by (simp add: key_strings_def)
  have run: "process_dataset (Inr df) = (INFO, Some ?out)"
    using assms(1,2) by (simp add: process_dataset_def identity_key_object)
  have col: "map_of ?out ''author_id'' = Some (NumCol (map Some ?ids))"
    by (simp add: map_of_drop_column update_conv')
  have gone: "map_of ?out ''Author'' = None"
    by (simp add: map_of_drop_column)
  have lenids: "length ?ids = length authors"
    using len by (simp add: factorize_def length_factorize_from)
  have missing: "?ids ! i = - 1"
    if "i < length authors" "authors ! i = None \<or> countries ! i = None" for i
  proof -
    have "?ks ! i = None" using that nth[of i] by (auto simp: key_of_def split: option.splits)
    then show ?thesis using that(1) len by (simp add: factorize_def factorize_from_missing)
  qed
  have present: "?ks ! i = Some (a @ ''|'' @ c)"
    if "i < length authors" "authors ! i = Some a" "countries ! i = Some c" for i a c
    using that nth[of i] by (simp add: key_of_def)
  have code: "?ids ! i = int (card (seen_before (a @ ''|'' @ c) ?ks))"
    if "i < length authors" "authors ! i = Some a" "countries ! i = Some c" for i a c
    using factorize_first_seen[of i ?ks] present[OF that] that(1) len by simp
  have bound: "?ids ! i \<le> int i"
    if "i < length authors" "authors ! i = Some a" "countries ! i = Some c" for i a c
    using card_seen_before_bound[of i ?ks] present[OF that] code[OF that] that(1) len by simp
  have iff: "(?ids ! i = ?ids ! j) = (a @ ''|'' @ c = a' @ ''|'' @ c')"
    if "i < length authors" "authors ! i = Some a" "countries ! i = Some c"
       "j < length authors" "authors ! j = Some a'" "countries ! j = Some c'" for i j a c a' c'
  proof -
    have ki: "?ks ! i = Some (a @ ''|'' @ c)" using present that by blast
    have kj: "?ks ! j = Some (a' @ ''|'' @ c')" using present that by blast
    have mi: "Some (a @ ''|'' @ c) \<in> set ?ks" using ki that(1) len by (metis nth_mem)
    have mj: "Some (a' @ ''|'' @ c') \<in> set ?ks" using kj that(4) len by (metis nth_mem)
    have ci: "?ids ! i = int (card (seen_before (a @ ''|'' @ c) ?ks))" using code that by blast
    have cj: "?ids ! j = int (card (seen_before (a' @ ''|'' @ c') ?ks))" using code that by blast
    show ?thesis
    proof
      assume eq: "?ids ! i = ?ids ! j"
      show "a @ ''|'' @ c = a' @ ''|'' @ c'"
      proof (rule ccontr)
        assume "a @ ''|'' @ c \<noteq> a' @ ''|'' @ c'"
        from card_seen_before_inj[OF this mi mj] eq ci cj show False by simp
      qed
    next
      assume "a @ ''|'' @ c = a' @ ''|'' @ c'"
      then show "?ids ! i = ?ids ! j" using ci cj by simp
    qed
  qed
  show ?thesis
    apply (rule exI[of _ ?out], rule exI[of _ ?ids])
    apply (intro conjI allI impI)
    subgoal by (rule run)
    subgoal by (rule col)
    subgoal by (rule gone)
    subgoal by (rule lenids)
    subgoal using missing by blast
    subgoal using code by blast
    subgoal using code by simp
    subgoal using bound by blast
    subgoal using iff by blast
    subgoal using iff by blast
    subgoal using iff key_injective by blast
    subgoal using iff key_injective by blast
    done
qed

text \<open>A Country column without any cell present: every key is NaN, every identifier -1.\<close>

lemma missing_country_cells_logged_info:
  "process_dataset (Inr no_country_cells_table) =
     (INFO, Some [(''Country'', NumCol [None, None]),
                  (''author_id'', NumCol [Some (- 1), Some (- 1)])])"
  by code_simp

section \<open>Lemmas on strings and on the ratings table\<close>

subsection \<open>Strings\<close>

lemma strip_unchanged:
  "s \<noteq> [] \<Longrightarrow> \<not> is_space (hd s) \<Longrightarrow> \<not> is_space (last s) \<Longrightarrow> strip s = s"
proof -
  assume a: "s \<noteq> []" "\<not> is_space (hd s)" "\<not> is_space (last s)"
  then have "dropWhile is_space s = s" by (cases s) auto
  moreover have "dropWhile is_space (rev s) = rev s"
    using a by (cases "rev s") (auto simp: last_rev[symmetric] simp del: last_rev)
  ultimately show ?thesis by (simp add: strip_def)
qed

lemma digit_char_facts:
  assumes "d < 10"
  shows "is_digit (digit_char d)" "digit_value (digit_char d) = d" "\<not> is_space (digit_char d)"
    "digit_char d \<noteq> CHR ''-''" "digit_char d \<noteq> CHR ''+''"
proof -
  from assms have "d = 0 \<or> d = 1 \<or> d = 2 \<or> d = 3 \<or> d = 4 \<or> d = 5
    \<or> d = 6 \<or> d = 7 \<or> d = 8 \<or> d = 9" by arith
  then have "is_digit (digit_char d) \<and> digit_value (digit_char d) = d \<and> \<not> is_space (digit_char d)
     \<and> digit_char d \<noteq> CHR ''-'' \<and> digit_char d \<noteq> CHR ''+''"
    by (elim disjE) (simp_all add: is_digit_def digit_char_def digit_value_def is_space_def)
  then show "is_digit (digit_char d)" "digit_value (digit_char d) = d" "\<not> is_space (digit_char d)"
    "digit_char d \<noteq> CHR ''-''" "digit_char d \<noteq> CHR ''+''" by simp_all
qed

lemma py_str_nonempty: "py_str n \<noteq> []"
  by (induction n rule: py_str.induct) (subst py_str.simps, simp)

lemma py_str_digits: "c \<in> set (py_str n) \<Longrightarrow> is_digit c"
proof (induction n rule: py_str.induct)
  case (1 n)
  show ?case
  proof (cases "n < 10")
    case True
    with 1(2) show ?thesis by (subst (asm) py_str.simps) (simp add: digit_char_facts)
  next
    case False
    with 1 show ?thesis by (subst (asm) (2) py_str.simps) (auto simp: digit_char_facts)
  qed
qed

lemma digits_from_all_digits:
  "(\<And>c. c \<in> set s \<Longrightarrow> is_digit c) \<Longrightarrow>
     digits_from acc s = Some (foldl (\<lambda>a c. a * 10 + digit_value c) acc s)"
  by (induction s arbitrary: acc) auto

lemma foldl_py_str: "foldl (\<lambda>a c. a * 10 + digit_value c) 0 (py_str n) = n"
proof (induction n rule: py_str.induct)
  case (1 n)
  show ?case
  proof (cases "n < 10")
    case True
    then show ?thesis by (subst py_str.simps) (simp add: digit_char_facts)
  next
    case False
    with 1 show ?thesis by (subst py_str.simps) (simp add: digit_char_facts)
  qed
qed

lemma parse_digits_py_str: "parse_digits (py_str n) = Some n"
proof (cases "py_str n")
  case Nil then show ?thesis using py_str_nonempty by blast
next
  case (Cons c cs)
  have d: "\<And>x. x \<in> set (c # cs) \<Longrightarrow> is_digit x" using py_str_digits[of _ n] Cons by simp
  have "digits_from (digit_value c) cs = Some (foldl (\<lambda>a c. a * 10 + digit_value c) 0 (c # cs))"
    using digits_from_all_digits[of cs "digit_value c"] d by simp
  then show ?thesis using Cons d foldl_py_str[of n] by (simp add: parse_digits_def)
qed

lemma py_str_hd_last: "is_digit (hd (py_str n)) \<and> is_digit (last (py_str n))"
  using py_str_nonempty[of n] py_str_digits[of _ n] by (meson hd_in_set last_in_set)

lemma digit_not_space: "is_digit c \<Longrightarrow> \<not> is_space c \<and> c \<noteq> CHR ''-'' \<and> c \<noteq> CHR ''+''"
  by (auto simp: is_digit_def is_space_def)

lemma py_int_py_str: "py_int (py_str n) = Inr (int n)"
proof -
  have s: "strip (py_str n) = py_str n"
    using py_str_nonempty py_str_hd_last digit_not_space by (intro strip_unchanged) auto
  obtain c cs where cs: "py_str n = c # cs" using py_str_nonempty[of n] by (cases "py_str n") auto
  then have "is_digit c" using py_str_digits[of c n] by simp
  then have "c \<noteq> CHR ''-''" "c \<noteq> CHR ''+''" using digit_not_space by auto
  then show ?thesis using s cs parse_digits_py_str[of n] by (simp add: py_int_def)
qed






subsection \<open>The pattern with parentheses\<close>

lemma lazy_until_close_match:
  "m \<noteq> [] \<Longrightarrow> CHR 0x0A \<notin> set m \<Longrightarrow> CHR '')'' \<notin> set (tl m) \<Longrightarrow>
     lazy_until_close (m @ '')'' @ post) = Some m"
proof (induction m)
  case Nil then show ?case by simp
next
  case (Cons c m)
  then show ?case by (cases m) auto
qed

lemma lazy_until_close_no_close: "CHR '')'' \<notin> set s \<Longrightarrow> lazy_until_close s = None"
proof (induction s)
  case Nil then show ?case by simp
next
  case (Cons c s)
  then show ?case by (cases s) auto
qed

lemma lazy_until_close_sound:
  "lazy_until_close s = Some m \<Longrightarrow> m \<noteq> [] \<and> (\<exists>post. s = m @ '')'' @ post)"
proof (induction s arbitrary: m)
  case Nil then show ?case by simp
next
  case (Cons c s)
  then show ?case by (cases s) (auto split: if_splits)
qed

lemma re_search_parens_first:
  "CHR ''('' \<notin> set pre \<Longrightarrow>
     re_search_parens (pre @ ''('' @ rest) =
       (case lazy_until_close rest of Some m \<Rightarrow> Some m | None \<Rightarrow> re_search_parens rest)"
  by (induction pre) auto

lemma re_search_parens_no_open: "CHR ''('' \<notin> set s \<Longrightarrow> re_search_parens s = None"
  by (induction s) auto

lemma re_search_parens_no_close: "CHR '')'' \<notin> set s \<Longrightarrow> re_search_parens s = None"
  by (induction s) (auto simp: lazy_until_close_no_close)

lemma re_search_parens_sound:
  "re_search_parens s = Some m \<Longrightarrow>
     m \<noteq> [] \<and> (\<exists>pre post. s = pre @ ''('' @ m @ '')'' @ post)"
proof (induction s)
  case Nil then show ?case by simp
next
  case (Cons c s)
  show ?case
  proof (cases "c = CHR ''('' \<and> lazy_until_close s \<noteq> None")
    case True
    with Cons(2) have l: "lazy_until_close s = Some m" by auto
    from lazy_until_close_sound[OF l] obtain post where "m \<noteq> []" "s = m @ '')'' @ post" by blast
    with True have "c # s = [] @ ''('' @ m @ '')'' @ post" by simp
    with \<open>m \<noteq> []\<close> show ?thesis by blast
  next
    case False
    with Cons(2) have "re_search_parens s = Some m" by (auto split: if_splits option.splits)
    from Cons(1)[OF this] obtain pre post where "m \<noteq> []" "s = pre @ ''('' @ m @ '')'' @ post" by blast
    then have "c # s = (c # pre) @ ''('' @ m @ '')'' @ post" by simp
    with \<open>m \<noteq> []\<close> show ?thesis by blast
  qed
qed

lemma lazy_until_close_group:
  "lazy_until_close s = Some m \<Longrightarrow>
     m \<noteq> [] \<and> CHR 0x0A \<notin> set m \<and> CHR '')'' \<notin> set (tl m) \<and> (\<exists>post. s = m @ '')'' @ post)"
proof (induction s arbitrary: m)
  case Nil then show ?case by simp
next
  case (Cons c s)
  show ?case
  proof (cases s)
    case Nil with Cons.prems show ?thesis by (simp split: if_splits)
  next
    case (Cons d ds)
    from Cons.prems have c: "c \<noteq> CHR 0x0A" by (auto split: if_splits)
    show ?thesis
    proof (cases "d = CHR '')''")
      case True
      with Cons.prems Cons c have "m = [c]" by simp
      with True Cons c show ?thesis by simp
    next
      case False
      with Cons.prems Cons c obtain z where z: "lazy_until_close s = Some z" and m: "m = c # z"
        by auto
      from Cons.IH[OF z] obtain post where
        p: "z \<noteq> []" "CHR 0x0A \<notin> set z" "CHR '')'' \<notin> set (tl z)" "s = z @ '')'' @ post"
        by blast
      from p(1,4) Cons have "hd z = d" by (cases z) auto
      with False p(1,3) have "CHR '')'' \<notin> set z" by (cases z) auto
      with m c p show ?thesis by simp
    qed
  qed
qed

lemma lazy_until_close_iff: "lazy_until_close rest = Some m \<longleftrightarrow> group_at rest m"
proof
  assume "lazy_until_close rest = Some m"
  from lazy_until_close_group[OF this] show "group_at rest m"
    by (auto simp: group_at_def)
next
  assume g: "group_at rest m"
  then have "rest = m @ '')'' @ drop (Suc (length m)) rest"
    by (metis append_take_drop_id append_assoc group_at_def)
  then show "lazy_until_close rest = Some m"
    using g lazy_until_close_match[of m "drop (Suc (length m)) rest"]
    by (simp add: group_at_def)
qed

lemma lazy_until_close_None_iff: "lazy_until_close rest = None \<longleftrightarrow> (\<forall>m. \<not> group_at rest m)"
  using lazy_until_close_iff[of rest] by (cases "lazy_until_close rest") auto

lemma re_search_parens_leftmost:
  "s = pre @ ''('' @ rest \<Longrightarrow> group_at rest m \<Longrightarrow>
   (\<And>p1 p2 m'. pre = p1 @ ''('' @ p2 \<Longrightarrow> \<not> group_at (p2 @ ''('' @ rest) m') \<Longrightarrow>
     re_search_parens s = Some m"
proof (induction pre arbitrary: s)
  case Nil
  then show ?case by (simp add: lazy_until_close_iff[symmetric])
next
  case (Cons c pre)
  have later: "\<And>p1 p2 m'. pre = p1 @ ''('' @ p2 \<Longrightarrow> \<not> group_at (p2 @ ''('' @ rest) m'"
  proof -
    fix p1 p2 m' assume "pre = p1 @ ''('' @ p2"
    then have "c # pre = (c # p1) @ ''('' @ p2" by simp
    from Cons.prems(3)[OF this] show "\<not> group_at (p2 @ ''('' @ rest) m'" .
  qed
  have ih: "re_search_parens (pre @ ''('' @ rest) = Some m"
    by (rule Cons.IH[OF refl Cons.prems(2) later])
  show ?case
  proof (cases "c = CHR ''(''")
    case True
    then have "c # pre = [] @ ''('' @ pre" by simp
    from Cons.prems(3)[OF this] have "lazy_until_close (pre @ ''('' @ rest) = None"
      by (simp add: lazy_until_close_None_iff)
    with True ih Cons.prems(1) show ?thesis by simp
  next
    case False
    with ih Cons.prems(1) show ?thesis by simp
  qed
qed

lemma re_search_parens_None_iff:
  "re_search_parens s = None \<longleftrightarrow> (\<forall>pre rest m. s = pre @ ''('' @ rest \<longrightarrow> \<not> group_at rest m)"
proof
  assume n: "re_search_parens s = None"
  have "\<not> group_at rest m" if "s = pre @ ''('' @ rest" for pre rest m
    using n that
  proof (induction pre arbitrary: s)
    case Nil
    then show ?case by (auto simp: lazy_until_close_iff[symmetric] split: option.splits)
  next
    case (Cons c pre)
    from Cons.prems have "re_search_parens (pre @ ''('' @ rest) = None"
      by (auto split: if_splits option.splits)
    from Cons.IH[OF this refl] show ?case .
  qed
  then show "\<forall>pre rest m. s = pre @ ''('' @ rest \<longrightarrow> \<not> group_at rest m" by blast
next
  assume "\<forall>pre rest m. s = pre @ ''('' @ rest \<longrightarrow> \<not> group_at rest m"
  then show "re_search_parens s = None"
  proof (induction s)
    case Nil then show ?case by simp
  next
    case (Cons c s)
    have "\<forall>pre rest m. s = pre @ ''('' @ rest \<longrightarrow> \<not> group_at rest m"
    proof (intro allI impI)
      fix pre rest m assume "s = pre @ ''('' @ rest"
      then have "c # s = (c # pre) @ ''('' @ rest" by simp
      with Cons.prems show "\<not> group_at rest m" by blast
    qed
    from Cons.IH[OF this] have r: "re_search_parens s = None" .
    show ?case
    proof (cases "c = CHR ''(''")
      case True
      then have "c # s = [] @ ''('' @ s" by simp
      with Cons.prems have "\<forall>m. \<not> group_at s m" by blast
      then have "lazy_until_close s = None" by (simp add: lazy_until_close_None_iff)
      with True r show ?thesis by simp
    next
      case False with r show ?thesis by simp
    qed
  qed
qed

subsection \<open>The ratings table\<close>

lemma parse_stats_append:
  "parse_stats (xs @ ys) r =
     (case parse_stats xs r of Inl e \<Rightarrow> Inl e | Inr r1 \<Rightarrow> parse_stats ys r1)"
  by (induction xs arbitrary: r) (auto split: sum.splits)

lemma parse_stats_unlabelled:
  "parse_stats stats r = Inr r' \<Longrightarrow> unlabelled l stats \<Longrightarrow> map_of r' l = map_of r l"
proof (induction stats arbitrary: r)
  case Nil then show ?case by simp
next
  case (Cons s stats)
  then show ?case
    by (auto simp: unlabelled_def update_conv' split: sum.splits)
qed

lemma parse_stats_last_label:
  assumes "parse_stats (pre @ stat # post) r = Inr r'"
      and "stat_entry stat = Inr (l, v)"
      and "unlabelled l post"
  shows "map_of r' l = Some v"
proof -
  from assms(1) obtain r1 where r1: "parse_stats pre r = Inr r1"
      and rest: "parse_stats (stat # post) r1 = Inr r'"
    by (auto simp: parse_stats_append split: sum.splits)
  from rest assms(2) have "parse_stats post (AList.update l v r1) = Inr r'" by simp
  from parse_stats_unlabelled[OF this assms(3)] show ?thesis by (simp add: update_conv')
qed

lemma parse_stats_keeps_keys:
  "parse_stats stats r = Inr r' \<Longrightarrow> k \<in> fst ` set r \<Longrightarrow> k \<in> fst ` set r'"
proof (induction stats arbitrary: r)
  case Nil then show ?case by simp
next
  case (Cons s stats)
  from Cons(2) obtain l v where e: "stat_entry s = Inr (l, v)"
      and p: "parse_stats stats (AList.update l v r) = Inr r'"
    by (auto split: sum.splits)
  have "k \<in> fst ` set (AList.update l v r)" using Cons(3) by (simp add: dom_update)
  from Cons(1)[OF p this] show ?case .
qed

lemma review_of_block_steps:
  "review_of_block b = Inr r \<Longrightarrow>
     \<exists>r0. core_fields b = Inr r0 \<and> parse_stats (stat_rows b) r0 = Inr r"
  by (auto simp: review_of_block_def stat_rows_def split: sum.splits option.splits)

lemma core_fields_lookup:
  assumes "core_fields b = Inr r0"
  shows "map_of r0 ''Rating'' = Some (rating_of b)"
    and "map_of r0 ''Country'' = Some (country_of b)"
    and "\<exists>t. find_tag b ''time'' AnyTag = Some t \<and> map_of r0 ''Date'' = Some (tag_get t ''datetime'' ''N/A'')"
    and "fst ` set r0 = {''Date'', ''Rating'', ''Title'', ''Author'', ''Country'', ''Review''}"
  using assms by (auto simp: core_fields_def split: option.splits)

text \<open>A record that the extractor returns has the six core fields.\<close>

lemma returned_record_has_core_fields:
  assumes "review_of_block b = Inr r"
  shows "set core_names \<subseteq> fst ` set r"
proof
  fix k assume k: "k \<in> set core_names"
  from review_of_block_steps[OF assms] obtain r0
    where c: "core_fields b = Inr r0" and p: "parse_stats (stat_rows b) r0 = Inr r" by blast
  have "k \<in> fst ` set r0" using core_fields_lookup(4)[OF c] k by (auto simp: core_names_def)
  from parse_stats_keeps_keys[OF p this] show "k \<in> fst ` set r" .
qed

section \<open>The claims\<close>

subsection \<open>C1: identifiers of the pseudonymizer\<close>

text \<open>
  Claim C1 says that two rows get the same identifier if and only if their Author and
  their Country match exactly, and that the identifiers are small non-negative integers.
  The key of line 21 is the one string \<open>Author|Country\<close>, and \<open>pd.factorize\<close>
  gives -1 to a missing key. In the data set below the rows \<open>(a|b, c)\<close> and
  \<open>(a, b|c)\<close> differ in both components and have the same key \<open>a|b|c\<close>: both
  get the identifier 0. The last two rows have no Author (the cell of the file is empty
  or \<open>N/A\<close>) and different Countries: both get -1.
\<close>

theorem pseudonym_collision_merges_authors:
  "process_dataset (Inr colliding_table) =
     (INFO, Some [(''Country'', ObjectCol [Some ''c'', Some ''b|c'', Some ''UK'', Some ''France'']),
                  (''author_id'', NumCol [Some 0, Some 0, Some (- 1), Some (- 1)])])"
  by code_simp

subsection \<open>C2: the extractor on a block without a time element\<close>

text \<open>
  Claim C2 says that the extractor never raises, whatever the block, also without a
  date element. On a block without a \<open>time\<close> element line 54 raises AttributeError,
  which nothing catches: the block gives no record, and \<open>scrape_reviews\<close> loses the
  records of the whole page.
\<close>

theorem missing_time_raises:
  "review_of_block no_time_block = Inl AttributeError
   \<and> scrape_reviews (Inr (page_of [rated_block, no_time_block])) = Inl AttributeError"
  by code_simp

subsection \<open>C3: a page without a pagination element\<close>

text \<open>
  Claim C3 says that a section whose first page has no pagination element is skipped and
  the run goes on. On such a page line 142 raises AttributeError outside every
  \<open>try\<close>: \<open>main\<close> ends with the exception, and no data set is written, neither for
  this section nor for the ones after it.
\<close>

theorem missing_pagination_raises:
  "num_pages_of (page_of [rated_block]) = Inl AttributeError
   \<and> scrape_main bare_site = ([], Some AttributeError)"
  by code_simp

subsection \<open>C4: a row of the ratings table with one cell\<close>

text \<open>
  Claim C4 says that every failure in the ratings table is caught, a row with fewer than
  two cells among them. On such a row line 89 raises IndexError; line 97 catches
  AttributeError only, so the exception escapes the extractor and \<open>scrape_reviews\<close>.
\<close>

theorem short_row_raises:
  "review_of_block short_row_block = Inl IndexError
   \<and> scrape_reviews (Inr (page_of [rated_block, short_row_block])) = Inl IndexError"
  by code_simp

subsection \<open>C5: the value of a star rating\<close>

text \<open>
  Claim C5, as amended. Let the extractor return a record for a block, and take a row of
  the ratings table after which no row has the same label; its label cell and its value
  cell are the first and the second tag below the row. When the stripped text of the value
  cell is \<open>12345\<close>, the record holds under the label the decimal numeral of the number
  of \<open>span\<close> tags below the value cell whose class is \<open>star fill\<close>, a natural
  number that the code does not bound by 5; otherwise it holds the stripped text itself.
\<close>

theorem star_value_stored:
  assumes "review_of_block b = Inr r"
      and "stat_rows b = pre @ stat # post"
      and "findChildren stat = label_cell # value_cell # cells"
      and "unlabelled (strip (text_of label_cell)) post"
  shows "map_of r (strip (text_of label_cell)) =
           Some (if strip (text_of value_cell) = ''12345''
                 then py_str (length (find_all value_cell ''span'' (Class ''star fill'')))
                 else strip (text_of value_cell))
       \<and> py_int (py_str (length (find_all value_cell ''span'' (Class ''star fill''))))
           = Inr (int (length (find_all value_cell ''span'' (Class ''star fill''))))"
proof -
  from review_of_block_steps[OF assms(1)] obtain r0
    where p: "parse_stats (stat_rows b) r0 = Inr r" by blast
  with assms(2) have q: "parse_stats (pre @ stat # post) r0 = Inr r" by simp
  have e: "stat_entry stat =
     Inr (strip (text_of label_cell),
          if strip (text_of value_cell) = ''12345''
          then py_str (length (find_all value_cell ''span'' (Class ''star fill'')))
          else strip (text_of value_cell))"
    using assms(3) by (simp add: stat_entry_def)
  from parse_stats_last_label[OF q e assms(4)] py_int_py_str show ?thesis by simp
qed

text \<open>
  The theorem at a block whose row \<open>Seat Comfort\<close> has three filled stars of five.
\<close>

theorem star_value_stored_witness:
  "review_of_block rated_block =
     Inr [(''Date'', ''2023-05-01''), (''Rating'', ''9/10''), (''Title'', ''N/A''),
          (''Author'', ''N/A''), (''Country'', ''United Kingdom''), (''Review'', ''N/A''),
          (''Seat Comfort'', ''3''), (''Recommended'', ''yes'')]
   \<and> stat_rows rated_block =
       [] @ stat_row ''Seat Comfort''
              [star True ''1'', star True ''2'', star True ''3'', star False ''4'',
               star False ''5'']
          # [stat_row ''Recommended'' [NavigableString '' yes '']]
   \<and> unlabelled ''Seat Comfort'' [stat_row ''Recommended'' [NavigableString '' yes '']]
   \<and> map_of [(''Date'', ''2023-05-01''), (''Rating'', ''9/10''), (''Title'', ''N/A''),
          (''Author'', ''N/A''), (''Country'', ''United Kingdom''), (''Review'', ''N/A''),
          (''Seat Comfort'', ''3''), (''Recommended'', ''yes'')] ''Seat Comfort''
       = Some (py_str 3)"
proof -
  let ?stars = "[star True ''1'', star True ''2'', star True ''3'', star False ''4'',
                 star False ''5'']"
  let ?vcell = "Tag ''td'' [''review-value''] [] ?stars"
  let ?lcell = "Tag ''td'' [''review-rating-header''] [] [NavigableString ''Seat Comfort'']"
  have h1: "review_of_block rated_block =
     Inr [(''Date'', ''2023-05-01''), (''Rating'', ''9/10''), (''Title'', ''N/A''),
          (''Author'', ''N/A''), (''Country'', ''United Kingdom''), (''Review'', ''N/A''),
          (''Seat Comfort'', ''3''), (''Recommended'', ''yes'')]"
    by code_simp
  have h2: "stat_rows rated_block =
       [] @ stat_row ''Seat Comfort'' ?stars
          # [stat_row ''Recommended'' [NavigableString '' yes '']]"
    by code_simp
  have h3: "findChildren (stat_row ''Seat Comfort'' ?stars) = ?lcell # ?vcell # ?stars"
    by code_simp
  have h4: "strip (text_of ?lcell) = ''Seat Comfort''" by code_simp
  have h5: "unlabelled ''Seat Comfort'' [stat_row ''Recommended'' [NavigableString '' yes '']]"
    by code_simp
  have h5': "unlabelled (strip (text_of ?lcell)) [stat_row ''Recommended'' [NavigableString '' yes '']]"
    using h4 h5 by simp
  have h6: "strip (text_of ?vcell) = ''12345''" by code_simp
  have h7: "length (find_all ?vcell ''span'' (Class ''star fill'')) = 3" by code_simp
  from star_value_stored[OF h1 h2 h3 h5'] h1 h2 h4 h5 h6 h7
  show ?thesis by simp
qed

text \<open>
  Claim C5 as stated fails in its bound. A value cell with six filled stars, the sixth one
  without text, has the text \<open>12345\<close>, and the value stored is 6.
\<close>

theorem six_filled_stars_counterexample:
  "strip (text_of six_star_cell) = ''12345''
   \<and> length (find_all six_star_cell ''span'' (Class ''star fill'')) = 6
   \<and> stat_entry (Tag ''tr'' [] []
        [Tag ''td'' [''review-rating-header''] [] [NavigableString ''Seat Comfort''],
         six_star_cell]) = Inr (''Seat Comfort'', ''6'')"
  by code_simp

subsection \<open>C6: the Country field\<close>

text \<open>
  Claim C6, as amended. Let the extractor return a record for a block whose ratings table
  has no row labelled Country. Without a status line the Country is \<open>N/A\<close>. With a
  status line, stripped, call a group a text after a \<open>(\<close> that is not empty, has no
  newline and no \<open>)\<close> after its first character, and is followed by \<open>)\<close>. The
  Country is the group after the LEFTMOST \<open>(\<close> of the line that has one: a \<open>(\<close>
  before it that starts no group is passed over. When no \<open>(\<close> of the line starts a
  group, the Country is \<open>N/A\<close>. The line \<open>John D (United Kingdom)\<close> gives
  \<open>United Kingdom\<close>.
\<close>

theorem country_rule:
  assumes "review_of_block b = Inr r"
      and "unlabelled ''Country'' (stat_rows b)"
  shows "\<exists>country. map_of r ''Country'' = Some country \<and>
     (case find_tag b ''h3'' (Class ''userStatusWrapper'') of
        None \<Rightarrow> country = ''N/A''
      | Some user_info \<Rightarrow>
          (\<forall>pre rest m.
              strip (text_of user_info) = pre @ ''('' @ rest \<and> group_at rest m
              \<and> (\<forall>p1 p2 m'. pre = p1 @ ''('' @ p2 \<longrightarrow> \<not> group_at (p2 @ ''('' @ rest) m')
              \<longrightarrow> country = m)
        \<and> ((\<forall>pre rest m. strip (text_of user_info) = pre @ ''('' @ rest \<longrightarrow> \<not> group_at rest m)
              \<longrightarrow> country = ''N/A'')
        \<and> (strip (text_of user_info) = ''John D (United Kingdom)''
              \<longrightarrow> country = ''United Kingdom''))"
proof -
  from review_of_block_steps[OF assms(1)] obtain r0
    where c: "core_fields b = Inr r0" and p: "parse_stats (stat_rows b) r0 = Inr r" by blast
  have "map_of r ''Country'' = map_of r0 ''Country''"
    by (rule parse_stats_unlabelled[OF p assms(2)])
  also have "\<dots> = Some (country_of b)" by (rule core_fields_lookup(2)[OF c])
  finally have look: "map_of r ''Country'' = Some (country_of b)" .
  show ?thesis
  proof (cases "find_tag b ''h3'' (Class ''userStatusWrapper'')")
    case None
    then show ?thesis using look by (simp add: country_of_def)
  next
    case (Some u)
    let ?s = "strip (text_of u)"
    have val: "country_of b = (case re_search_parens ?s of Some m \<Rightarrow> m | None \<Rightarrow> ''N/A'')"
      using Some by (simp add: country_of_def)
    have a: "country_of b = m"
      if "?s = pre @ ''('' @ rest" "group_at rest m"
         "\<forall>p1 p2 m'. pre = p1 @ ''('' @ p2 \<longrightarrow> \<not> group_at (p2 @ ''('' @ rest) m'"
      for pre rest m
    proof -
      have "re_search_parens ?s = Some m"
        using that(3) by (intro re_search_parens_leftmost[OF that(1,2)]) blast
      then show ?thesis using val by simp
    qed
    have b: "country_of b = ''N/A''"
      if "\<forall>pre rest m. ?s = pre @ ''('' @ rest \<longrightarrow> \<not> group_at rest m"
      using that val re_search_parens_None_iff[of ?s] by simp
    have d: "country_of b = ''United Kingdom''" if "?s = ''John D (United Kingdom)''"
      using val that by simp
    show ?thesis
      using look Some a b d by (intro exI[of _ "country_of b"]) (simp; blast)
  qed
qed

text \<open>
  The theorem at two blocks: the status line \<open>John D (United Kingdom)\<close>, and a
  status line whose first \<open>(\<close> starts no group, a newline coming before the
  \<open>)\<close>, so that the second \<open>(\<close> gives the Country.
\<close>

theorem country_rule_witness:
  "review_of_block rated_block =
     Inr [(''Date'', ''2023-05-01''), (''Rating'', ''9/10''), (''Title'', ''N/A''),
          (''Author'', ''N/A''), (''Country'', ''United Kingdom''), (''Review'', ''N/A''),
          (''Seat Comfort'', ''3''), (''Recommended'', ''yes'')]
   \<and> review_of_block broken_group_block =
     Inr [(''Date'', ''2023-05-01''), (''Rating'', ''N/A''), (''Title'', ''N/A''),
          (''Author'', ''N/A''), (''Country'', ''UK''), (''Review'', ''N/A'')]
   \<and> map_of [(''Date'', ''2023-05-01''), (''Rating'', ''9/10''), (''Title'', ''N/A''),
          (''Author'', ''N/A''), (''Country'', ''United Kingdom''), (''Review'', ''N/A''),
          (''Seat Comfort'', ''3''), (''Recommended'', ''yes'')] ''Country''
       = Some ''United Kingdom''
   \<and> map_of [(''Date'', ''2023-05-01''), (''Rating'', ''N/A''), (''Title'', ''N/A''),
          (''Author'', ''N/A''), (''Country'', ''UK''), (''Review'', ''N/A'')] ''Country''
       = Some ''UK''"
proof -
  let ?r1 = "[(''Date'', ''2023-05-01''), (''Rating'', ''9/10''), (''Title'', ''N/A''),
          (''Author'', ''N/A''), (''Country'', ''United Kingdom''), (''Review'', ''N/A''),
          (''Seat Comfort'', ''3''), (''Recommended'', ''yes'')]"
  let ?r2 = "[(''Date'', ''2023-05-01''), (''Rating'', ''N/A''), (''Title'', ''N/A''),
          (''Author'', ''N/A''), (''Country'', ''UK''), (''Review'', ''N/A'')]"
  let ?u1 = "status_line ''John D (United Kingdom)''"
  let ?u2 = "status_line (''(a'' @ [CHR 0x0A] @ ''b) (UK)'')"
  have h1: "review_of_block rated_block = Inr ?r1" by code_simp
  have h2: "unlabelled ''Country'' (stat_rows rated_block)" by code_simp
  have h3: "find_tag rated_block ''h3'' (Class ''userStatusWrapper'') = Some ?u1" by code_simp
  have h4: "strip (text_of ?u1) = ''John D '' @ ''('' @ ''United Kingdom)''" by code_simp
  have h5: "group_at ''United Kingdom)'' ''United Kingdom''" by code_simp
  have h6: "\<forall>p1 p2 m'. ''John D '' = p1 @ ''('' @ p2 \<longrightarrow> \<not> group_at (p2 @ ''('' @ ''United Kingdom)'') m'"
  proof (intro allI impI)
    fix p1 p2 :: string and m' assume "''John D '' = p1 @ ''('' @ p2"
    then have "CHR ''('' \<in> set ''John D ''" by (metis in_set_conv_decomp append_Cons append_Nil)
    then show "\<not> group_at (p2 @ ''('' @ ''United Kingdom)'') m'" by simp
  qed
  from country_rule[OF h1 h2] obtain c1 where c1: "map_of ?r1 ''Country'' = Some c1"
    and f1: "\<forall>pre rest m. strip (text_of ?u1) = pre @ ''('' @ rest \<and> group_at rest m
              \<and> (\<forall>p1 p2 m'. pre = p1 @ ''('' @ p2 \<longrightarrow> \<not> group_at (p2 @ ''('' @ rest) m')
              \<longrightarrow> c1 = m"
    using h3 by auto
  from f1 h4 h5 h6 have "c1 = ''United Kingdom''" by blast
  with c1 have first: "map_of ?r1 ''Country'' = Some ''United Kingdom''" by simp
  have k1: "review_of_block broken_group_block = Inr ?r2" by code_simp
  have k2: "unlabelled ''Country'' (stat_rows broken_group_block)" by code_simp
  have k3: "find_tag broken_group_block ''h3'' (Class ''userStatusWrapper'') = Some ?u2"
    by code_simp
  have k4: "strip (text_of ?u2) = (''(a'' @ [CHR 0x0A] @ ''b) '') @ ''('' @ ''UK)''" by code_simp
  have k5: "group_at ''UK)'' ''UK''" by code_simp
  have k6: "\<forall>p1 p2 m'. ''(a'' @ [CHR 0x0A] @ ''b) '' = p1 @ ''('' @ p2
                \<longrightarrow> \<not> group_at (p2 @ ''('' @ ''UK)'') m'"
  proof (intro allI impI)
    fix p1 p2 :: string and m' assume e: "''(a'' @ [CHR 0x0A] @ ''b) '' = p1 @ ''('' @ p2"
    show "\<not> group_at (p2 @ ''('' @ ''UK)'') m'"
    proof (cases p1)
      case Nil
      with e have p2: "p2 = ''a'' @ [CHR 0x0A] @ ''b) ''" by simp
      have "lazy_until_close ((''a'' @ [CHR 0x0A] @ ''b) '') @ ''('' @ ''UK)'') = None" by code_simp
      then have "\<not> group_at ((''a'' @ [CHR 0x0A] @ ''b) '') @ ''('' @ ''UK)'') m'"
        using lazy_until_close_None_iff by blast
      with p2 show ?thesis by simp
    next
      case (Cons x xs)
      with e have "''a'' @ [CHR 0x0A] @ ''b) '' = xs @ ''('' @ p2" by simp
      then have "CHR ''('' \<in> set (''a'' @ [CHR 0x0A] @ ''b) '')"
        by (metis in_set_conv_decomp append_Cons append_Nil)
      then show ?thesis by simp
    qed
  qed
  from country_rule[OF k1 k2] obtain c2 where c2: "map_of ?r2 ''Country'' = Some c2"
    and f2: "\<forall>pre rest m. strip (text_of ?u2) = pre @ ''('' @ rest \<and> group_at rest m
              \<and> (\<forall>p1 p2 m'. pre = p1 @ ''('' @ p2 \<longrightarrow> \<not> group_at (p2 @ ''('' @ rest) m')
              \<longrightarrow> c2 = m"
    using k3 by auto
  from f2 k4 k5 k6 have "c2 = ''UK''" by blast
  with c2 have second: "map_of ?r2 ''Country'' = Some ''UK''" by simp
  from h1 k1 first second show ?thesis by blast
qed

text \<open>
  Claim C6 as stated fails. On the status line \<open>John (London (UK) based)\<close> the code
  starts at the first \<open>(\<close> and gives \<open>London (UK\<close>. The last unmatched
  \<open>(\<close> of the claim is not the first one in any reading: the \<open>(\<close> nearest before
  the first \<open>)\<close> and the last \<open>(\<close> of the line both give \<open>UK\<close>, and the
  matching of the parentheses leaves no \<open>(\<close> without a partner.
\<close>

theorem country_first_open_counterexample:
  "find_tag nested_groups_block ''h3'' (Class ''userStatusWrapper'')
     = Some (status_line ''John (London (UK) based)'')
   \<and> strip (text_of (status_line ''John (London (UK) based)'')) = ''John (London (UK) based)''
   \<and> review_of_block nested_groups_block =
     Inr [(''Date'', ''2023-05-01''), (''Rating'', ''N/A''), (''Title'', ''N/A''),
          (''Author'', ''N/A''), (''Country'', ''London (UK''), (''Review'', ''N/A'')]
   \<and> spec_country_nearest_open ''John (London (UK) based)'' = ''UK''
   \<and> spec_country_last_open ''John (London (UK) based)'' = ''UK''
   \<and> spec_country_unbalanced_open ''John (London (UK) based)'' = ''N/A''"
  by code_simp

subsection \<open>C7: the number of pages\<close>




subsection \<open>C8: the Rating field\<close>

text \<open>
  Claim C8, as amended. Let the extractor return a record for a block whose ratings table
  has no row labelled Rating. Then the Rating is the stripped text of the primary rating
  element when the block has one; otherwise the stripped text of the secondary element
  when the block has one; otherwise \<open>N/A\<close>.
\<close>

theorem rating_fallback:
  assumes "review_of_block b = Inr r"
      and "unlabelled ''Rating'' (stat_rows b)"
  shows "map_of r ''Rating'' =
     Some (case find_tag b ''span'' (Attr ''itemprop'' ''ratingValue'') of
             Some primary \<Rightarrow> strip (text_of primary)
           | None \<Rightarrow>
               (case find_tag b ''div'' (Class ''rating-10'') of
                  Some secondary \<Rightarrow> strip (text_of secondary)
                | None \<Rightarrow> ''N/A''))"
proof -
  from review_of_block_steps[OF assms(1)] obtain r0
    where c: "core_fields b = Inr r0" and p: "parse_stats (stat_rows b) r0 = Inr r" by blast
  have "map_of r ''Rating'' = map_of r0 ''Rating''"
    by (rule parse_stats_unlabelled[OF p assms(2)])
  also have "\<dots> = Some (rating_of b)" by (rule core_fields_lookup(1)[OF c])
  finally show ?thesis
    by (simp add: rating_of_def stripped_text_or_NA_def split: option.splits)
qed

text \<open>
  The theorem at a block without the primary element and with the secondary one.
\<close>

theorem rating_fallback_witness:
  "review_of_block rated_block =
     Inr [(''Date'', ''2023-05-01''), (''Rating'', ''9/10''), (''Title'', ''N/A''),
          (''Author'', ''N/A''), (''Country'', ''United Kingdom''), (''Review'', ''N/A''),
          (''Seat Comfort'', ''3''), (''Recommended'', ''yes'')]
   \<and> unlabelled ''Rating'' (stat_rows rated_block)
   \<and> find_tag rated_block ''span'' (Attr ''itemprop'' ''ratingValue'') = None
   \<and> map_of [(''Date'', ''2023-05-01''), (''Rating'', ''9/10''), (''Title'', ''N/A''),
          (''Author'', ''N/A''), (''Country'', ''United Kingdom''), (''Review'', ''N/A''),
          (''Seat Comfort'', ''3''), (''Recommended'', ''yes'')] ''Rating''
       = Some (strip '' 9/10 '')"
proof -
  have h1: "review_of_block rated_block =
     Inr [(''Date'', ''2023-05-01''), (''Rating'', ''9/10''), (''Title'', ''N/A''),
          (''Author'', ''N/A''), (''Country'', ''United Kingdom''), (''Review'', ''N/A''),
          (''Seat Comfort'', ''3''), (''Recommended'', ''yes'')]"
    by code_simp
  have h2: "unlabelled ''Rating'' (stat_rows rated_block)"
    by code_simp
  have h3: "find_tag rated_block ''span'' (Attr ''itemprop'' ''ratingValue'') = None"
    by code_simp
  have h4: "strip '' 9/10 '' = ''9/10''" by code_simp
  show ?thesis
    using h1 h2 h3 h4 rating_fallback[OF h1 h2] by simp
qed

text \<open>
  Claim C8 as stated fails. The block has the primary rating element with the text 7 and
  a row of the ratings table labelled Rating: the Rating of the record is the value of
  the row.
\<close>

theorem rating_overwritten_counterexample:
  "find_tag relabelled_block ''span'' (Attr ''itemprop'' ''ratingValue'')
     = Some (Tag ''span'' [] [(''itemprop'', ''ratingValue'')] [NavigableString ''7''])
   \<and> review_of_block relabelled_block =
     Inr [(''Date'', ''2023-05-01''), (''Rating'', ''zzz''), (''Title'', ''N/A''),
          (''Author'', ''N/A''), (''Country'', ''N/A''), (''Review'', ''N/A'')]"
  by code_simp

subsection \<open>C9: a data set without the Author or the Country column\<close>

text \<open>
  Claim C9. For a data set that was read and has no Author column or no Country column,
  \<open>process_dataset\<close> logs one warning and does not write the file; \<open>main\<close> goes on
  with the files after it.
\<close>

theorem missing_column_untouched:
  assumes "''Author'' \<notin> fst ` set df \<or> ''Country'' \<notin> fst ` set df"
  shows "process_dataset (Inr df) = (WARNING, None)
       \<and> pseudonymize_main (earlier @ (stem @ ''_reviews.csv'', Inr df) # later)
           = pseudonymize_main earlier @ (stem @ ''_reviews.csv'', WARNING, None)
               # pseudonymize_main later"
proof -
  from assms have "map_of df ''Author'' = None \<or> map_of df ''Country'' = None"
    by (simp add: map_of_eq_None_iff)
  then have w: "process_dataset (Inr df) = (WARNING, None)"
    by (auto simp: process_dataset_def split: option.splits)
  then show ?thesis
    by (simp add: pseudonymize_main_append endswith_append)
qed

text \<open>
  The theorem at a directory of two files, the first one without a Country column.
\<close>

theorem missing_column_untouched_witness:
  "''Country'' \<notin> fst ` set no_country_table
   \<and> process_dataset (Inr no_country_table) = (WARNING, None)
   \<and> pseudonymize_main [(''seat_reviews.csv'', Inr no_country_table),
                         (''airline_reviews.csv'', Inr reviews_table)]
       = [(''seat_reviews.csv'', WARNING, None),
          (''airline_reviews.csv'', process_dataset (Inr reviews_table))]"
proof -
  have h: "''Author'' \<notin> fst ` set no_country_table \<or> ''Country'' \<notin> fst ` set no_country_table"
    by (simp add: no_country_table_def)
  have e: "endswith ''airline_reviews.csv'' ''_reviews.csv''" by code_simp
  from missing_column_untouched[OF h, of "[]" "''seat''" "[(''airline_reviews.csv'', Inr reviews_table)]"]
  show ?thesis using e by (simp add: no_country_table_def)
qed

subsection \<open>C10: a row labelled like a core field\<close>



end
